theory Spec2Isabelle
  imports Main
begin

section \<open>Python strings\<close>

text \<open>
  A Python \<open>str\<close> is a sequence of Unicode code points; the program matches Arabic month
  names, so the model keeps code points (integers, as \<open>ord\<close> gives them) rather than bytes.
  \<open>str\<close> turns an ASCII literal into that representation.
\<close>

type_synonym ustr = "int list"

definition str :: "string \<Rightarrow> ustr" where
  "str s = map of_char s"

text \<open>
  \<open>str.isspace\<close>, which is also the class \<open>\s\<close> of \<open>re\<close> on \<open>str\<close> patterns and the set
  \<open>str.strip()\<close> removes (Unicode 14, as shipped with CPython 3.11).
\<close>

definition isspace :: "int \<Rightarrow> bool" where
  "isspace c \<longleftrightarrow>
     (9 \<le> c \<and> c \<le> 13) \<or> (28 \<le> c \<and> c \<le> 32) \<or> c = 133 \<or> c = 160 \<or> c = 5760 \<or>
     (8192 \<le> c \<and> c \<le> 8202) \<or> c = 8232 \<or> c = 8233 \<or> c = 8239 \<or> c = 8287 \<or>
     c = 12288"

definition lstrip :: "ustr \<Rightarrow> ustr" where
  "lstrip s = dropWhile isspace s"

definition rstrip :: "ustr \<Rightarrow> ustr" where
  "rstrip s = rev (dropWhile isspace (rev s))"

definition strip :: "ustr \<Rightarrow> ustr" where
  "strip s = rstrip (lstrip s)"

text \<open>
  The decimal digits of Unicode (category Nd, the class \<open>\d\<close> of \<open>re\<close>) come in blocks of ten
  consecutive code points with the values 0 to 9; \<open>decimal_blocks\<close> lists the first code
  point of each block (Unicode 14).
\<close>

definition decimal_blocks :: "int list" where
  "decimal_blocks =
     [48, 1632, 1776, 1984, 2406, 2534, 2662, 2790, 2918, 3046, 3174, 3302, 3430, 3558, 3664,
      3792, 3872, 4160, 4240, 6112, 6160, 6470, 6608, 6784, 6800, 6992, 7088, 7232, 7248,
      42528, 43216, 43264, 43472, 43504, 43600, 44016, 65296, 66720, 68912, 69734, 69872,
      69942, 70096, 70384, 70736, 70864, 71248, 71360, 71472, 71904, 72016, 72784, 73040,
      73120, 92768, 92864, 93008, 120782, 120792, 120802, 120812, 120822, 123200, 123632,
      125264, 130032]"

definition decimal :: "int \<Rightarrow> int option" where
  "decimal c =
     (case find (\<lambda>b. b \<le> c \<and> c < b + 10) decimal_blocks of
        None \<Rightarrow> None
      | Some b \<Rightarrow> Some (c - b))"

definition isdecimal :: "int \<Rightarrow> bool" where
  "isdecimal c \<longleftrightarrow> decimal c \<noteq> None"

text \<open>
  \<open>int(s)\<close> on the strings this program passes to it: decimal digits, possibly between
  white space (the day group of \<open>strptime\<close> may start with a blank). Anything else is the
  \<open>ValueError\<close>; signs and underscores, which \<open>int\<close> also reads, never reach it here.
\<close>

definition py_int :: "ustr \<Rightarrow> int option" where
  "py_int s =
     (let t = strip s
      in if t \<noteq> [] \<and> list_all isdecimal t
         then Some (fold (\<lambda>c acc. acc * 10 + the (decimal c)) t 0)
         else None)"

text \<open>
  \<open>str.lower()\<close>. Beyond ASCII only the two letters are mapped whose lower case holds an
  ASCII letter (the Kelvin sign, and dotted capital I, which becomes two code points):
  every comparison the program makes on lowered text is against ASCII words or the
  caseless arrow, so the other cased letters may stay as they are.
\<close>

definition lower_cp :: "int \<Rightarrow> ustr" where
  "lower_cp c =
     (if 65 \<le> c \<and> c \<le> 90 then [c + 32]
      else if c = 8490 then [107]
      else if c = 304 then [105, 775]
      else [c])"

definition lower :: "ustr \<Rightarrow> ustr" where
  "lower s = concat (map lower_cp s)"

text \<open>\<open>sub in s\<close>: substring test.\<close>

fun contains :: "ustr \<Rightarrow> ustr \<Rightarrow> bool" where
  "contains sub [] = (sub = [])"
| "contains sub (c # cs) = (take (length sub) (c # cs) = sub \<or> contains sub cs)"

text \<open>\<open>s.endswith(suffix)\<close> and \<open>s.rstrip('/')\<close>.\<close>

definition endswith :: "ustr \<Rightarrow> ustr \<Rightarrow> bool" where
  "endswith s suffix \<longleftrightarrow> length suffix \<le> length s \<and> drop (length s - length suffix) s = suffix"

definition rstrip_slash :: "ustr \<Rightarrow> ustr" where
  "rstrip_slash s = rev (dropWhile (\<lambda>c. c = 47) (rev s))"

text \<open>\<open>s.replace('Z', '+00:00')\<close>: every \<open>Z\<close>, not only a trailing one.\<close>

definition replace_Z :: "ustr \<Rightarrow> ustr" where
  "replace_Z s = concat (map (\<lambda>c. if c = 90 then str ''+00:00'' else [c]) s)"

section \<open>Regular expressions\<close>

text \<open>
  The fragment of \<open>re\<close> the program and \<open>strptime\<close> use: character classes, greedy bounded
  repetition of a class, sequence, ordered alternation and capturing groups. A match is
  searched by backtracking; \<open>rmatch\<close> returns every way to match a prefix, in the order the
  backtracking engine tries them, so the head of the list is the match \<open>re\<close> reports.
\<close>

datatype regex =
    Eps
  | Chr "int \<Rightarrow> bool"
  | Many "int \<Rightarrow> bool" nat "nat option"
  | Seq regex regex
  | Alt regex regex
  | Grp string regex

type_synonym groups = "(string \<times> ustr) list"

fun rmatch :: "regex \<Rightarrow> groups \<times> ustr \<Rightarrow> (groups \<times> ustr) list" where
  "rmatch Eps st = [st]"
| "rmatch (Chr p) (g, s) = (case s of [] \<Rightarrow> [] | c # t \<Rightarrow> if p c then [(g, t)] else [])"
| "rmatch (Many p lo hi) (g, s) =
     (let k = length (takeWhile p s);
          k' = (case hi of None \<Rightarrow> k | Some h \<Rightarrow> min h k)
      in map (\<lambda>j. (g, drop j s)) (rev [lo..<Suc k']))"
| "rmatch (Seq a b) st = concat (map (rmatch b) (rmatch a st))"
| "rmatch (Alt a b) st = rmatch a st @ rmatch b st"
| "rmatch (Grp n a) (g, s) =
     map (\<lambda>(g', t). (g' @ [(n, take (length s - length t) s)], t)) (rmatch a (g, s))"

text \<open>
  A match object: the groups, the matched text (\<open>group(0)\<close>) and the unmatched rest.
\<close>

record rematch =
  groups_of :: groups
  group0 :: ustr
  rest_of :: ustr

definition re_match :: "regex \<Rightarrow> ustr \<Rightarrow> rematch option" where
  "re_match r s =
     (case rmatch r ([], s) of
        [] \<Rightarrow> None
      | (g, t) # _ \<Rightarrow> Some \<lparr>groups_of = g, group0 = take (length s - length t) s, rest_of = t\<rparr>)"

fun re_search :: "regex \<Rightarrow> ustr \<Rightarrow> rematch option" where
  "re_search r [] = re_match r []"
| "re_search r (c # cs) =
     (case re_match r (c # cs) of Some m \<Rightarrow> Some m | None \<Rightarrow> re_search r cs)"

definition group :: "rematch \<Rightarrow> string \<Rightarrow> ustr option" where
  "group m n = map_of (groups_of m) n"

text \<open>
  A literal character, and a literal character under \<open>re.IGNORECASE\<close>: an ASCII letter
  matches both its cases, and \<open>i\<close>, \<open>s\<close>, \<open>k\<close> also match the four letters that \<open>re\<close> folds
  onto them (dotted capital I, dotless i, long s, Kelvin sign).
\<close>

definition ascii_lower :: "int \<Rightarrow> int" where
  "ascii_lower c = (if 65 \<le> c \<and> c \<le> 90 then c + 32 else c)"

definition ignorecase_eq :: "int \<Rightarrow> int \<Rightarrow> bool" where
  "ignorecase_eq x c \<longleftrightarrow>
     ascii_lower x = ascii_lower c \<or>
     (ascii_lower x = 105 \<and> (c = 304 \<or> c = 305)) \<or>
     (ascii_lower x = 115 \<and> c = 383) \<or>
     (ascii_lower x = 107 \<and> c = 8490)"

fun lit :: "ustr \<Rightarrow> regex" where
  "lit [] = Eps"
| "lit (x # xs) = Seq (Chr (\<lambda>c. c = x)) (lit xs)"

fun lit_i :: "ustr \<Rightarrow> regex" where
  "lit_i [] = Eps"
| "lit_i (x # xs) = Seq (Chr (ignorecase_eq x)) (lit_i xs)"

text \<open>\<open>a|b|c\<close> for a non-empty list of alternatives.\<close>

fun alts :: "regex list \<Rightarrow> regex" where
  "alts [] = Chr (\<lambda>c. False)"
| "alts [r] = r"
| "alts (r # rs) = Alt r (alts rs)"

definition rng :: "char \<Rightarrow> char \<Rightarrow> int \<Rightarrow> bool" where
  "rng a b c \<longleftrightarrow> of_char a \<le> c \<and> c \<le> of_char b"

text \<open>
  \<open>re.sub(r'[class]+', repl, text)\<close> for a pattern that is one character class under \<open>+\<close>:
  the matches are the maximal runs of class characters, each replaced by \<open>repl\<close>.
\<close>

function re_sub_plus :: "(int \<Rightarrow> bool) \<Rightarrow> ustr \<Rightarrow> ustr \<Rightarrow> ustr" where
  "re_sub_plus p repl [] = []"
| "re_sub_plus p repl (c # cs) =
     (if p c then repl @ re_sub_plus p repl (dropWhile p cs)
      else c # re_sub_plus p repl cs)"
  by pat_completeness auto
termination
  by (relation "measure (\<lambda>(p, repl, s). length s)")
     (auto simp: length_dropWhile_le less_Suc_eq_le)

section \<open>TextNormalizer: \<open>clean_text\<close>\<close>

text \<open>
  \<^verbatim>\<open>
  def clean_text(text):
      if not text:
          return ""
      text = re.sub(r'[\n\r\t]+', ' ', text)
      text = re.sub(r'\s+', ' ', text)
      text = text.strip()
      return text
  \<close>
  The argument is \<open>None\<close> at one call site (\<open>soup.title.string\<close>), hence the option.
\<close>

definition nl_cr_tab :: "int \<Rightarrow> bool" where
  "nl_cr_tab c \<longleftrightarrow> c = 10 \<or> c = 13 \<or> c = 9"

definition clean_text :: "ustr option \<Rightarrow> ustr" where
  "clean_text text =
     (case text of
        None \<Rightarrow> []
      | Some t \<Rightarrow>
          if t = [] then []
          else strip (re_sub_plus isspace (str '' '') (re_sub_plus nl_cr_tab (str '' '') t)))"

text \<open>No two adjacent blanks, by recursion over the text.\<close>

fun nodbl :: "ustr \<Rightarrow> bool" where
  "nodbl (a # b # cs) = (\<not> (a = 32 \<and> b = 32) \<and> nodbl (b # cs))"
| "nodbl _ = True"

section \<open>Calendar dates and the \<open>datetime\<close> library\<close>

text \<open>
  The functions of this section stand for the standard library (\<open>datetime\<close>, \<open>_strptime\<close>),
  which the program calls but does not contain. A date is the triple (year, month, day).
\<close>

type_synonym date = "int \<times> int \<times> int"

definition is_leap :: "int \<Rightarrow> bool" where
  "is_leap y \<longleftrightarrow> y mod 4 = 0 \<and> (y mod 100 \<noteq> 0 \<or> y mod 400 = 0)"

definition days_in_month :: "int \<Rightarrow> int \<Rightarrow> int" where
  "days_in_month y m =
     (if m = 2 then (if is_leap y then 29 else 28)
      else if m = 4 \<or> m = 6 \<or> m = 9 \<or> m = 11 then 30
      else 31)"

definition valid_date :: "date \<Rightarrow> bool" where
  "valid_date d =
     (case d of (y, m, dd) \<Rightarrow>
        1 \<le> y \<and> y \<le> 9999 \<and> 1 \<le> m \<and> m \<le> 12 \<and> 1 \<le> dd \<and> dd \<le> days_in_month y m)"

text \<open>\<open>datetime(year, month, day)\<close>: \<open>None\<close> is the \<open>ValueError\<close> of an impossible date.\<close>

definition datetime :: "int \<Rightarrow> int \<Rightarrow> int \<Rightarrow> date option" where
  "datetime y m d = (if valid_date (y, m, d) then Some (y, m, d) else None)"

text \<open>\<open>dt.strftime('%Y-%m-%d')\<close>: zero-padded fields of width 4, 2 and 2.\<close>

fun zero_padded :: "nat \<Rightarrow> int \<Rightarrow> ustr" where
  "zero_padded 0 n = []"
| "zero_padded (Suc w) n = zero_padded w (n div 10) @ [48 + n mod 10]"

definition strftime_ymd :: "date \<Rightarrow> ustr" where
  "strftime_ymd dt =
     (case dt of (y, m, d) \<Rightarrow>
        zero_padded 4 y @ str ''-'' @ zero_padded 2 m @ str ''-'' @ zero_padded 2 d)"

subsection \<open>\<open>datetime.fromisoformat\<close>\<close>

text \<open>
  The format the library documents for Python 3.7 to 3.10,
  \<^verbatim>\<open>YYYY-MM-DD[*HH[:MM[:SS[.fff[fff]]]][+HH:MM[:SS[.ffffff]]]]\<close>
  where \<open>*\<close> is any single character. Later versions read these strings the same way and
  accept further ISO 8601 forms (basic format, week dates), which are outside the model:
  on them the model reports the \<open>ValueError\<close> of the older versions.
\<close>

definition ascii_digit :: "int \<Rightarrow> bool" where
  "ascii_digit c \<longleftrightarrow> 48 \<le> c \<and> c \<le> 57"

definition parse_digits :: "ustr \<Rightarrow> int option" where
  "parse_digits s =
     (if list_all ascii_digit s then Some (fold (\<lambda>c acc. acc * 10 + (c - 48)) s 0) else None)"

definition parse_isoformat_date :: "ustr \<Rightarrow> (int \<times> int \<times> int) option" where
  "parse_isoformat_date s =
     (if length s = 10 \<and> s ! 4 = 45 \<and> s ! 7 = 45 then
        (case (parse_digits (take 4 s), parse_digits (take 2 (drop 5 s)),
               parse_digits (take 2 (drop 8 s))) of
           (Some y, Some m, Some d) \<Rightarrow> Some (y, m, d)
         | _ \<Rightarrow> None)
      else None)"

text \<open>
  \<open>HH[:MM[:SS[.fff[fff]]]]\<close>: hour, minute and second, each of two digits; \<open>None\<close> when the
  text has another shape. The fraction does not contribute to the result.
\<close>

definition parse_hh_mm_ss_ff :: "ustr \<Rightarrow> (int \<times> int \<times> int) option" where
  "parse_hh_mm_ss_ff s =
     (let n = length s;
          two = (\<lambda>i. parse_digits (take 2 (drop i s)));
          frac_ok = (n = 8 \<or> ((n = 12 \<or> n = 15) \<and> s ! 8 = 46 \<and> list_all ascii_digit (drop 9 s)))
      in if n = 2 then (case two 0 of Some h \<Rightarrow> Some (h, 0, 0) | None \<Rightarrow> None)
         else if n = 5 \<and> s ! 2 = 58 then
           (case (two 0, two 3) of (Some h, Some m) \<Rightarrow> Some (h, m, 0) | _ \<Rightarrow> None)
         else if 8 \<le> n \<and> s ! 2 = 58 \<and> s ! 5 = 58 \<and> frac_ok then
           (case (two 0, two 3, two 6) of
              (Some h, Some m, Some sec) \<Rightarrow> Some (h, m, sec)
            | _ \<Rightarrow> None)
         else None)"

text \<open>
  The time part with its optional UTC offset \<open>+HH:MM[:SS[.ffffff]]\<close> (sign \<open>+\<close> or \<open>-\<close>).
  The result only says whether the part is well formed and in range: the date of an aware
  \<open>datetime\<close> is the date that was written, whatever the offset.
\<close>

definition parse_isoformat_time :: "ustr \<Rightarrow> bool" where
  "parse_isoformat_time t =
     (let timestr = takeWhile (\<lambda>c. c \<noteq> 43 \<and> c \<noteq> 45) t;
          tzpart = dropWhile (\<lambda>c. c \<noteq> 43 \<and> c \<noteq> 45) t;
          time_ok = (case parse_hh_mm_ss_ff timestr of
                       Some (h, m, s) \<Rightarrow> h < 24 \<and> m < 60 \<and> s < 60
                     | None \<Rightarrow> False);
          tz_ok = (if tzpart = [] then True
                   else let tzstr = tl tzpart
                        in (length tzstr = 5 \<or> length tzstr = 8 \<or> length tzstr = 15) \<and>
                           (case parse_hh_mm_ss_ff tzstr of
                              Some (h, m, s) \<Rightarrow> h * 3600 + m * 60 + s < 86400
                            | None \<Rightarrow> False))
      in time_ok \<and> tz_ok)"

definition fromisoformat :: "ustr \<Rightarrow> date option" where
  "fromisoformat s =
     (if length s < 10 then None
      else case parse_isoformat_date (take 10 s) of
             None \<Rightarrow> None
           | Some (y, m, d) \<Rightarrow>
               if length s = 10 then datetime y m d
               else if parse_isoformat_time (drop 11 s) then datetime y m d
               else None)"

subsection \<open>\<open>datetime.strptime\<close>\<close>

text \<open>
  \<open>_strptime\<close> turns the format into a regular expression (compiled with
  \<open>re.IGNORECASE\<close>), matches it at the start of the text, refuses unconverted text after
  the match, converts the groups and checks the date. The month names are those of the
  C/English locale. Of the directives only those the program uses are modelled:
  \<^verbatim>\<open>
  'd': r"(?P<d>3[0-1]|[1-2]\d|0[1-9]|[1-9]| [1-9])"
  'm': r"(?P<m>1[0-2]|0[1-9]|[1-9])"
  'Y': r"(?P<Y>\d\d\d\d)"
  'B': full month names, longest first      'b': abbreviated month names
  \<close>
\<close>

definition f_month :: "ustr list" where
  "f_month = map str
     ['''', ''january'', ''february'', ''march'', ''april'', ''may'', ''june'', ''july'',
      ''august'', ''september'', ''october'', ''november'', ''december'']"

definition a_month :: "ustr list" where
  "a_month = map str
     ['''', ''jan'', ''feb'', ''mar'', ''apr'', ''may'', ''jun'', ''jul'', ''aug'', ''sep'',
      ''oct'', ''nov'', ''dec'']"

text \<open>\<open>sorted(to_convert, key=len, reverse=True)\<close>: a stable sort, longest first.\<close>

definition longest_first :: "ustr list \<Rightarrow> ustr list" where
  "longest_first xs = rev (sort_key length (rev xs))"

definition seqToRE :: "ustr list \<Rightarrow> string \<Rightarrow> regex" where
  "seqToRE to_convert directive = Grp directive (alts (map lit_i (longest_first to_convert)))"

definition directive_re :: "int \<Rightarrow> regex option" where
  "directive_re c =
     (if c = of_char CHR ''d'' then
        Some (Grp ''d'' (alts
          [Seq (lit (str ''3'')) (Chr (rng CHR ''0'' CHR ''1'')),
           Seq (Chr (rng CHR ''1'' CHR ''2'')) (Chr isdecimal),
           Seq (lit (str ''0'')) (Chr (rng CHR ''1'' CHR ''9'')),
           Chr (rng CHR ''1'' CHR ''9''),
           Seq (lit (str '' '')) (Chr (rng CHR ''1'' CHR ''9''))]))
      else if c = of_char CHR ''m'' then
        Some (Grp ''m'' (alts
          [Seq (lit (str ''1'')) (Chr (rng CHR ''0'' CHR ''2'')),
           Seq (lit (str ''0'')) (Chr (rng CHR ''1'' CHR ''9'')),
           Chr (rng CHR ''1'' CHR ''9'')]))
      else if c = of_char CHR ''Y'' then
        Some (Grp ''Y'' (Seq (Chr isdecimal) (Seq (Chr isdecimal)
                          (Seq (Chr isdecimal) (Chr isdecimal)))))
      else if c = of_char CHR ''B'' then Some (seqToRE (tl f_month) ''B'')
      else if c = of_char CHR ''b'' then Some (seqToRE (tl a_month) ''b'')
      else None)"

text \<open>
  \<open>TimeRE.pattern\<close>: a run of white space in the format becomes \<open>\s+\<close>, \<open>%x\<close> the
  expression of directive \<open>x\<close>, any other character itself. \<open>None\<close> is the \<open>ValueError\<close>
  of a bad directive.
\<close>

function pattern :: "ustr \<Rightarrow> regex option" where
  "pattern [] = Some Eps"
| "pattern (c # cs) =
     (if c = 37 then
        (case cs of
           [] \<Rightarrow> None
         | d # rest \<Rightarrow>
             (case directive_re d of
                None \<Rightarrow> None
              | Some r \<Rightarrow> map_option (Seq r) (pattern rest)))
      else if isspace c then
        map_option (Seq (Many isspace 1 None)) (pattern (dropWhile isspace cs))
      else map_option (Seq (Chr (ignorecase_eq c))) (pattern cs))"
  by pat_completeness auto
termination
  by (relation "measure length") (auto simp: length_dropWhile_le less_Suc_eq_le)

text \<open>\<open>list.index\<close>: the position of the first occurrence, \<open>None\<close> for the \<open>ValueError\<close>.\<close>

fun index_of :: "'a \<Rightarrow> 'a list \<Rightarrow> nat option" where
  "index_of x [] = None"
| "index_of x (y # ys) = (if x = y then Some 0 else map_option Suc (index_of x ys))"

text \<open>
  The conversion of the groups. Without the directive the year is 1900, the month and the
  day are 1; a 29 February without a year is read in 1904. The date is checked at the
  end, as \<open>datetime_date(year, month, day)\<close> does in the library. The formats of the
  program have one month directive each, so the order in which \<open>m\<close>, \<open>B\<close> and \<open>b\<close> are
  looked up does not matter.
\<close>

definition strptime_fields :: "rematch \<Rightarrow> date option" where
  "strptime_fields found =
     (let year = (case group found ''Y'' of None \<Rightarrow> Some None
                  | Some t \<Rightarrow> map_option Some (py_int t));
          month = (case group found ''m'' of
                     Some t \<Rightarrow> py_int t
                   | None \<Rightarrow>
                     (case group found ''B'' of
                        Some t \<Rightarrow> map_option int (index_of (lower t) f_month)
                      | None \<Rightarrow>
                        (case group found ''b'' of
                           Some t \<Rightarrow> map_option int (index_of (lower t) a_month)
                         | None \<Rightarrow> Some 1)));
          day = (case group found ''d'' of None \<Rightarrow> Some 1 | Some t \<Rightarrow> py_int t)
      in case (year, month, day) of
           (Some yo, Some m, Some d) \<Rightarrow>
             (let y = (case yo of Some y \<Rightarrow> y
                       | None \<Rightarrow> if m = 2 \<and> d = 29 then 1904 else 1900)
              in datetime y m d)
         | _ \<Rightarrow> None)"

definition strptime :: "ustr \<Rightarrow> ustr \<Rightarrow> date option" where
  "strptime data_string format =
     (case pattern format of
        None \<Rightarrow> None
      | Some format_regex \<Rightarrow>
          (case re_match format_regex data_string of
             None \<Rightarrow> None
           | Some found \<Rightarrow>
               if rest_of found \<noteq> [] then None else strptime_fields found))"

section \<open>DateResolver: \<open>parse_date_string\<close>\<close>

text \<open>
  \<^verbatim>\<open>
  def parse_date_string(s):
      if not s:
          return None
      s = s.strip()
      try:
          clean = s.replace('Z', '+00:00')
          dt = datetime.fromisoformat(clean)
          return dt.strftime('%Y-%m-%d')
      except Exception:
          pass
  \<close>
\<close>

definition try_iso :: "ustr \<Rightarrow> ustr option" where
  "try_iso s = map_option strftime_ymd (fromisoformat (replace_Z s))"

text \<open>
  \<^verbatim>\<open>
      formats = ['%B %d, %Y', '%b %d, %Y', '%d %B %Y', '%d %b %Y', '%Y-%m-%d', '%d/%m/%Y', '%d-%m-%Y']
      for fmt in formats:
          try:
              dt = datetime.strptime(s, fmt)
              return dt.strftime('%Y-%m-%d')
          except Exception:
              continue
  \<close>
\<close>

definition formats :: "ustr list" where
  "formats = map str
     [''%B %d, %Y'', ''%b %d, %Y'', ''%d %B %Y'', ''%d %b %Y'', ''%Y-%m-%d'', ''%d/%m/%Y'',
      ''%d-%m-%Y'']"

fun try_formats :: "ustr \<Rightarrow> ustr list \<Rightarrow> ustr option" where
  "try_formats s [] = None"
| "try_formats s (fmt # fmts) =
     (case strptime s fmt of
        Some dt \<Rightarrow> Some (strftime_ymd dt)
      | None \<Rightarrow> try_formats s fmts)"

text \<open>
  \<^verbatim>\<open>
      arabic_months = { ... }
      m = re.search(r'(%s)\s+(\d{1,2})[,\s]+(\d{4})' % '|'.join(arabic_months.keys()), s)
      if m:
          month_name = m.group(1)
          day = int(m.group(2))
          year = int(m.group(3))
          month = arabic_months.get(month_name)
          try:
              dt = datetime(year, month, day)
              return dt.strftime('%Y-%m-%d')
          except Exception:
              pass
  \<close>
  The dictionary keeps the order in which the source writes the names, which is the order
  of the alternatives of the pattern.
\<close>

definition arabic_months :: "(ustr \<times> int) list" where
  "arabic_months =
     [([1610, 1606, 1575, 1610, 1585], 1),
      ([1601, 1576, 1585, 1575, 1610, 1585], 2),
      ([1605, 1575, 1585, 1587], 3),
      ([1571, 1576, 1585, 1610, 1604], 4),
      ([1573, 1576, 1585, 1610, 1604], 4),
      ([1605, 1575, 1610], 5),
      ([1605, 1575, 1610, 1608], 5),
      ([1610, 1608, 1606, 1610, 1608], 6),
      ([1610, 1608, 1604, 1610, 1608], 7),
      ([1571, 1594, 1587, 1591, 1587], 8),
      ([1575, 1594, 1587, 1591, 1587], 8),
      ([1587, 1576, 1578, 1605, 1576, 1585], 9),
      ([1571, 1603, 1578, 1608, 1576, 1585], 10),
      ([1575, 1603, 1578, 1608, 1576, 1585], 10),
      ([1606, 1608, 1601, 1605, 1576, 1585], 11),
      ([1583, 1610, 1587, 1605, 1576, 1585], 12),
      ([1583, 1580, 1605, 1576, 1585], 12)]"

definition arabic_re :: regex where
  "arabic_re =
     Seq (Grp ''1'' (alts (map (lit \<circ> fst) arabic_months)))
    (Seq (Many isspace 1 None)
    (Seq (Grp ''2'' (Many isdecimal 1 (Some 2)))
    (Seq (Many (\<lambda>c. c = 44 \<or> isspace c) 1 None)
         (Grp ''3'' (Many isdecimal 4 (Some 4))))))"

definition try_arabic :: "ustr \<Rightarrow> ustr option" where
  "try_arabic s =
     (case re_search arabic_re s of
        None \<Rightarrow> None
      | Some m \<Rightarrow>
          (case (group m ''1'', Option.bind (group m ''2'') py_int,
                 Option.bind (group m ''3'') py_int) of
             (Some month_name, Some day, Some year) \<Rightarrow>
               (case map_of arabic_months month_name of
                  None \<Rightarrow> None
                | Some month \<Rightarrow> map_option strftime_ymd (datetime year month day))
           | _ \<Rightarrow> None))"

text \<open>
  \<^verbatim>\<open>
      m2 = re.search(r'([A-Za-z]+)\s+(\d{1,2}),\s*(\d{4})', s)
      if m2:
          try:
              dt = datetime.strptime(m2.group(0), '%B %d, %Y')
              return dt.strftime('%Y-%m-%d')
          except Exception:
              try:
                  dt = datetime.strptime(m2.group(0), '%b %d, %Y')
                  return dt.strftime('%Y-%m-%d')
              except Exception:
                  pass
      return None
  \<close>
\<close>

definition english_re :: regex where
  "english_re =
     Seq (Grp ''1'' (Many (\<lambda>c. rng CHR ''A'' CHR ''Z'' c \<or> rng CHR ''a'' CHR ''z'' c) 1 None))
    (Seq (Many isspace 1 None)
    (Seq (Grp ''2'' (Many isdecimal 1 (Some 2)))
    (Seq (lit (str '',''))
    (Seq (Many isspace 0 None)
         (Grp ''3'' (Many isdecimal 4 (Some 4)))))))"

definition try_english :: "ustr \<Rightarrow> ustr option" where
  "try_english s =
     (case re_search english_re s of
        None \<Rightarrow> None
      | Some m2 \<Rightarrow> try_formats (group0 m2) [str ''%B %d, %Y'', str ''%b %d, %Y''])"

definition parse_date_string :: "ustr option \<Rightarrow> ustr option" where
  "parse_date_string s0 =
     (case s0 of
        None \<Rightarrow> None
      | Some s1 \<Rightarrow>
          if s1 = [] then None
          else
            (let s = strip s1
             in case try_iso s of
                  Some r \<Rightarrow> Some r
                | None \<Rightarrow>
                    (case try_formats s formats of
                       Some r \<Rightarrow> Some r
                     | None \<Rightarrow>
                         (case try_arabic s of
                            Some r \<Rightarrow> Some r
                          | None \<Rightarrow> try_english s))))"

section \<open>Parsed documents: the \<open>BeautifulSoup\<close> tree\<close>

text \<open>
  \<open>BeautifulSoup(html, "html.parser")\<close> belongs to the library; the model starts from the
  tree it returns. A tag has a name, a dictionary of attributes (kept as an association
  list, read with \<open>map_of\<close>) and its children in document order. Text is a
  \<open>NavigableString\<close>; \<open>Comment\<close> stands for the strings \<open>get_text\<close> leaves out. The
  document itself is a tag (named \<open>[document]\<close> by the library), and every search looks at
  the descendants of the node it is called on, not at the node itself.
\<close>

datatype node =
    Tag ustr "(ustr \<times> ustr) list" "node list"
  | NavigableString ustr
  | Comment ustr

fun descendants :: "node \<Rightarrow> node list" where
  "descendants (Tag n a cs) = concat (map (\<lambda>c. c # descendants c) cs)"
| "descendants (NavigableString s) = []"
| "descendants (Comment s) = []"

definition find_all :: "(node \<Rightarrow> bool) \<Rightarrow> node \<Rightarrow> node list" where
  "find_all p soup = filter p (descendants soup)"

definition find_first :: "(node \<Rightarrow> bool) \<Rightarrow> node \<Rightarrow> node option" where
  "find_first p soup = find p (descendants soup)"

text \<open>\<open>tag.get(key)\<close>; \<open>None\<close> also for a string node, which has no attributes.\<close>

fun get :: "node \<Rightarrow> ustr \<Rightarrow> ustr option" where
  "get (Tag n a cs) key = map_of a key"
| "get _ key = None"

text \<open>Truth of an optional string in a Python condition: neither \<open>None\<close> nor empty.\<close>

definition truthy :: "ustr option \<Rightarrow> bool" where
  "truthy x \<longleftrightarrow> (case x of None \<Rightarrow> False | Some s \<Rightarrow> s \<noteq> [])"

text \<open>The search criteria the program uses.\<close>

fun named :: "ustr list \<Rightarrow> node \<Rightarrow> bool" where
  "named names (Tag n a cs) = (n \<in> set names)"
| "named names _ = False"

text \<open>\<open>href=True\<close>: the attribute is present, whatever its value.\<close>

definition has_attr :: "ustr \<Rightarrow> node \<Rightarrow> bool" where
  "has_attr key el \<longleftrightarrow> get el key \<noteq> None"

text \<open>\<open>attrs={key: value}\<close> on an attribute with a single value.\<close>

definition attr_is :: "ustr \<Rightarrow> ustr \<Rightarrow> node \<Rightarrow> bool" where
  "attr_is key v el \<longleftrightarrow> get el key = Some v"

text \<open>
  \<open>class\<close> is a multi-valued attribute: the parser splits its value at white space, and a
  criterion matches when it matches one of the values or the values joined by blanks.
\<close>

function split_ws :: "ustr \<Rightarrow> ustr list" where
  "split_ws s =
     (let t = dropWhile isspace s
      in if t = [] then []
         else takeWhile (\<lambda>c. \<not> isspace c) t # split_ws (dropWhile (\<lambda>c. \<not> isspace c) t))"
  by pat_completeness auto
termination
proof (relation "measure length")
  fix s t :: ustr
  assume t: "t = dropWhile isspace s" and ne: "t \<noteq> []"
  then have "\<not> isspace (hd t)" by (simp add: hd_dropWhile)
  with ne have "length (dropWhile (\<lambda>c. \<not> isspace c) t) < length t"
    by (cases t) (auto simp: length_dropWhile_le less_Suc_eq_le)
  moreover have "length t \<le> length s" by (simp add: t length_dropWhile_le)
  ultimately show "(dropWhile (\<lambda>c. \<not> isspace c) t, s) \<in> measure length" by simp
qed simp

fun join_blank :: "ustr list \<Rightarrow> ustr" where
  "join_blank [] = []"
| "join_blank [x] = x"
| "join_blank (x # xs) = x @ 32 # join_blank xs"

definition class_matches :: "(ustr \<Rightarrow> bool) \<Rightarrow> node \<Rightarrow> bool" where
  "class_matches p el =
     (case get el (str ''class'') of
        None \<Rightarrow> False
      | Some v \<Rightarrow> (let values = split_ws v in list_ex p values \<or> p (join_blank values)))"

text \<open>\<open>get_text()\<close>, \<open>get_text(strip=True)\<close> and \<open>.string\<close>.\<close>

fun get_text :: "node \<Rightarrow> ustr" where
  "get_text (Tag n a cs) = concat (map get_text cs)"
| "get_text (NavigableString s) = s"
| "get_text (Comment s) = []"

fun get_text_strip :: "node \<Rightarrow> ustr" where
  "get_text_strip (Tag n a cs) = concat (map get_text_strip cs)"
| "get_text_strip (NavigableString s) = strip s"
| "get_text_strip (Comment s) = []"

fun string_of :: "node \<Rightarrow> ustr option" where
  "string_of (Tag n a cs) = (case cs of [c] \<Rightarrow> string_of c | _ \<Rightarrow> None)"
| "string_of (NavigableString s) = Some s"
| "string_of (Comment s) = Some s"

section \<open>Event-date extraction: \<open>extract_event_date\<close>\<close>

text \<open>
  \<^verbatim>\<open>
      time_tag = soup.find('time')
      if time_tag:
          dt_attr = time_tag.get('datetime')
          if dt_attr:
              parsed = parse_date_string(dt_attr)
              if parsed:
                  return parsed
          text = clean_text(time_tag.get_text())
          parsed = parse_date_string(text)
          if parsed:
              return parsed
  \<close>
  Each strategy returns the date it found, or \<open>None\<close> to let the next one run.
\<close>

definition parsed_or_none :: "ustr option \<Rightarrow> ustr option" where
  "parsed_or_none parsed = (if truthy parsed then parsed else None)"

definition date_from_time_tag :: "node \<Rightarrow> ustr option" where
  "date_from_time_tag soup =
     (case find_first (named [str ''time'']) soup of
        None \<Rightarrow> None
      | Some time_tag \<Rightarrow>
          (let dt_attr = get time_tag (str ''datetime'');
               from_attr = (if truthy dt_attr then parsed_or_none (parse_date_string dt_attr)
                            else None)
           in case from_attr of
                Some parsed \<Rightarrow> Some parsed
              | None \<Rightarrow>
                  parsed_or_none (parse_date_string (Some (clean_text (Some (get_text time_tag)))))))"

text \<open>
  \<^verbatim>\<open>
      meta_names = ['article:published_time', 'published_time', 'date', 'dcterms.date',
                    'dc.date', 'pubdate', 'publication_date', 'datePublished']
      for name in meta_names:
          meta = soup.find('meta', attrs={'property': name}) or soup.find('meta', attrs={'name': name})
          if meta and meta.get('content'):
              parsed = parse_date_string(meta['content'])
              if parsed:
                  return parsed
  \<close>
\<close>

definition meta_names :: "ustr list" where
  "meta_names = map str
     [''article:published_time'', ''published_time'', ''date'', ''dcterms.date'', ''dc.date'',
      ''pubdate'', ''publication_date'', ''datePublished'']"

definition find_meta :: "node \<Rightarrow> ustr \<Rightarrow> node option" where
  "find_meta soup name =
     (case find_first (\<lambda>el. named [str ''meta''] el \<and> attr_is (str ''property'') name el) soup of
        Some meta \<Rightarrow> Some meta
      | None \<Rightarrow> find_first (\<lambda>el. named [str ''meta''] el \<and> attr_is (str ''name'') name el) soup)"

fun date_from_meta :: "node \<Rightarrow> ustr list \<Rightarrow> ustr option" where
  "date_from_meta soup [] = None"
| "date_from_meta soup (name # names) =
     (let found =
            (case find_meta soup name of
               None \<Rightarrow> None
             | Some meta \<Rightarrow>
                 if truthy (get meta (str ''content''))
                 then parsed_or_none (parse_date_string (get meta (str ''content'')))
                 else None)
      in case found of
           Some parsed \<Rightarrow> Some parsed
         | None \<Rightarrow> date_from_meta soup names)"

text \<open>
  \<^verbatim>\<open>
      # 3) Elements whose class or id suggests a date
      date_elements = soup.find_all(class_=re.compile(r'date|time|post-date|entry-date|...|...', re.I))
      for el in date_elements:
          text = clean_text(el.get_text())
          parsed = parse_date_string(text)
          if parsed:
              return parsed
  \<close>
  The last two alternatives of the pattern are the Arabic words for date and publication.
  The search criterion is \<open>class_\<close> alone.
\<close>

definition date_class_re :: regex where
  "date_class_re =
     alts (map lit_i
       [str ''date'', str ''time'', str ''post-date'', str ''entry-date'',
        [1578, 1575, 1585, 1610, 1582], [1606, 1588, 1585]])"

definition date_elements :: "node \<Rightarrow> node list" where
  "date_elements soup =
     find_all (class_matches (\<lambda>v. re_search date_class_re v \<noteq> None)) soup"

fun date_from_elements :: "node list \<Rightarrow> ustr option" where
  "date_from_elements [] = None"
| "date_from_elements (el # els) =
     (case parsed_or_none (parse_date_string (Some (clean_text (Some (get_text el))))) of
        Some parsed \<Rightarrow> Some parsed
      | None \<Rightarrow> date_from_elements els)"

text \<open>
  \<^verbatim>\<open>
      body_text = clean_text(soup.get_text())
      m = re.search(r'([A-Za-z]+)\s+(\d{1,2}),\s*(\d{4})', body_text)
      if m:
          parsed = parse_date_string(m.group(0))
          if parsed:
              return parsed
      arabic_months_regex = r'(...)'
      m2 = re.search(arabic_months_regex + r'\s+(\d{1,2})[,\s]+(\d{4})', body_text)
      if m2:
          parsed = parse_date_string(m2.group(0))
          if parsed:
              return parsed
      return None
  \<close>
  \<open>arabic_months_regex\<close> lists the keys of \<open>arabic_months\<close> in the same order, so the second
  pattern is \<open>arabic_re\<close>.
\<close>

definition date_from_body :: "node \<Rightarrow> ustr option" where
  "date_from_body soup =
     (let body_text = clean_text (Some (get_text soup));
          english = (case re_search english_re body_text of
                       None \<Rightarrow> None
                     | Some m \<Rightarrow> parsed_or_none (parse_date_string (Some (group0 m))))
      in case english of
           Some parsed \<Rightarrow> Some parsed
         | None \<Rightarrow>
             (case re_search arabic_re body_text of
                None \<Rightarrow> None
              | Some m2 \<Rightarrow> parsed_or_none (parse_date_string (Some (group0 m2)))))"

definition extract_event_date :: "node \<Rightarrow> ustr option" where
  "extract_event_date soup =
     (case date_from_time_tag soup of
        Some parsed \<Rightarrow> Some parsed
      | None \<Rightarrow>
          (case date_from_meta soup meta_names of
             Some parsed \<Rightarrow> Some parsed
           | None \<Rightarrow>
               (case date_from_elements (date_elements soup) of
                  Some parsed \<Rightarrow> Some parsed
                | None \<Rightarrow> date_from_body soup)))"

section \<open>Exceptions and the URL library\<close>

text \<open>
  Exceptions that leave a function are values: \<open>Inl\<close> the exception, \<open>Inr\<close> the result.
  \<open>urljoin\<close> and \<open>urlparse\<close> belong to \<open>urllib.parse\<close>, so the model takes them as
  parameters: \<open>netloc u\<close> is \<open>urlparse(u).netloc\<close>. Both raise \<open>ValueError\<close> on some
  malformed URLs (an unbalanced bracket in the host).
\<close>

datatype error = ValueError | KeyError | RequestException

record urllib =
  urljoin :: "ustr \<Rightarrow> ustr \<Rightarrow> error + ustr"
  netloc :: "ustr \<Rightarrow> error + ustr"

section \<open>LinkDiscoverer: \<open>extract_links\<close>\<close>

text \<open>
  The two variables of the function, \<open>links\<close> and \<open>seen\<close>, are threaded through the three
  loops.
  \<^verbatim>\<open>
              if url not in seen:
                  seen.add(url)
                  links.append(url)
  \<close>
\<close>

type_synonym found_links = "ustr list \<times> ustr set"

definition add_unseen :: "ustr \<Rightarrow> found_links \<Rightarrow> found_links" where
  "add_unseen url st =
     (case st of (links, seen) \<Rightarrow>
        if url \<notin> seen then (links @ [url], insert url seen) else (links, seen))"

definition a_href :: "node \<Rightarrow> bool" where
  "a_href el \<longleftrightarrow> named [str ''a''] el \<and> has_attr (str ''href'') el"

text \<open>
  Strategies 1 and 2 run the same loop body, over the \<open>article\<close> elements and over the
  headings:
  \<^verbatim>\<open>
      for article in soup.find_all('article'):
          link = article.find('a', href=True)
          if link:
              url = urljoin(base_url, link['href'])
              if url not in seen: ...
      for heading in soup.find_all(['h1', 'h2', 'h3', 'h4']):
          link = heading.find('a', href=True)
          ...
  \<close>
\<close>

fun first_links :: "urllib \<Rightarrow> ustr \<Rightarrow> node list \<Rightarrow> found_links \<Rightarrow> error + found_links" where
  "first_links U base_url [] st = Inr st"
| "first_links U base_url (el # els) st =
     (case find_first a_href el of
        None \<Rightarrow> first_links U base_url els st
      | Some link \<Rightarrow>
          (case get link (str ''href'') of
             None \<Rightarrow> Inl KeyError
           | Some href \<Rightarrow>
               (case urljoin U base_url href of
                  Inl e \<Rightarrow> Inl e
                | Inr url \<Rightarrow> first_links U base_url els (add_unseen url st))))"

text \<open>
  \<^verbatim>\<open>
      for link in soup.find_all('a', href=True):
          url = urljoin(base_url, link['href'])
          parsed_url = urlparse(url)
          if parsed_url.netloc.endswith(domain) and url not in seen:
              # Skip pagination links pointing to the current page
              if url.rstrip('/') != base_url.rstrip('/'):
                  seen.add(url)
                  links.append(url)
  \<close>
\<close>

fun internal_links ::
  "urllib \<Rightarrow> ustr \<Rightarrow> ustr \<Rightarrow> node list \<Rightarrow> found_links \<Rightarrow> error + found_links" where
  "internal_links U base_url domain [] st = Inr st"
| "internal_links U base_url domain (link # others) st =
     (case get link (str ''href'') of
        None \<Rightarrow> Inl KeyError
      | Some href \<Rightarrow>
          (case urljoin U base_url href of
             Inl e \<Rightarrow> Inl e
           | Inr url \<Rightarrow>
               (case netloc U url of
                  Inl e \<Rightarrow> Inl e
                | Inr url_netloc \<Rightarrow>
                    internal_links U base_url domain others
                      (case st of (links, seen) \<Rightarrow>
                         if endswith url_netloc domain \<and> url \<notin> seen then
                           (if rstrip_slash url \<noteq> rstrip_slash base_url
                            then (links @ [url], insert url seen)
                            else (links, seen))
                         else (links, seen)))))"

text \<open>The state after strategies 1 and 2, then the whole function.\<close>

definition container_and_heading_links :: "urllib \<Rightarrow> node \<Rightarrow> ustr \<Rightarrow> error + found_links" where
  "container_and_heading_links U soup base_url =
     (case first_links U base_url (find_all (named [str ''article'']) soup) ([], {}) of
        Inl e \<Rightarrow> Inl e
      | Inr st1 \<Rightarrow>
          first_links U base_url
            (find_all (named [str ''h1'', str ''h2'', str ''h3'', str ''h4'']) soup) st1)"

definition extract_links :: "urllib \<Rightarrow> node \<Rightarrow> ustr \<Rightarrow> error + ustr list" where
  "extract_links U soup base_url =
     (case container_and_heading_links U soup base_url of
        Inl e \<Rightarrow> Inl e
      | Inr st2 \<Rightarrow>
          (case netloc U base_url of
             Inl e \<Rightarrow> Inl e
           | Inr domain \<Rightarrow>
               (case internal_links U base_url domain (find_all a_href soup) st2 of
                  Inl e \<Rightarrow> Inl e
                | Inr st3 \<Rightarrow> Inr (fst st3))))"

section \<open>ArticleFieldExtractor: \<open>extract_article_data\<close>\<close>

record article =
  Title :: ustr
  Date :: ustr
  Description :: ustr
  Link :: ustr

text \<open>
  \<^verbatim>\<open>
      title = ""
      h1 = soup.find('h1')
      if h1:
          title = clean_text(h1.get_text())
      elif soup.title:
          title = clean_text(soup.title.string)
  \<close>
  A tag object is true in a condition whatever it contains, so the \<open>elif\<close> runs only when
  there is no \<open>h1\<close>. \<open>soup.title\<close> is \<open>soup.find('title')\<close>.
\<close>

definition extract_title :: "node \<Rightarrow> ustr" where
  "extract_title soup =
     (case find_first (named [str ''h1'']) soup of
        Some h1 \<Rightarrow> clean_text (Some (get_text h1))
      | None \<Rightarrow>
          (case find_first (named [str ''title'']) soup of
             Some title \<Rightarrow> clean_text (string_of title)
           | None \<Rightarrow> []))"

text \<open>
  \<^verbatim>\<open>
      summary = ""
      meta_desc = soup.find('meta', attrs={'name': 'description'})
      if meta_desc and meta_desc.get('content'):
          summary = clean_text(meta_desc['content'])
      if not summary:
          content_selectors = ['entry-content', 'post-content', 'content', 'td-post-content',
                               'article-body', 'article-content', 'main-content']
          for selector in content_selectors:
              container = soup.find(class_=selector)
              if container:
                  paragraph = container.find('p')
                  if paragraph:
                      summary = clean_text(paragraph.get_text())
                      break
      if not summary:
          paragraph = soup.find('p')
          if paragraph:
              summary = clean_text(paragraph.get_text())
  \<close>
\<close>

definition content_selectors :: "ustr list" where
  "content_selectors = map str
     [''entry-content'', ''post-content'', ''content'', ''td-post-content'', ''article-body'',
      ''article-content'', ''main-content'']"

fun summary_from_containers :: "node \<Rightarrow> ustr list \<Rightarrow> ustr" where
  "summary_from_containers soup [] = []"
| "summary_from_containers soup (selector # selectors) =
     (case find_first (class_matches (\<lambda>v. v = selector)) soup of
        None \<Rightarrow> summary_from_containers soup selectors
      | Some container \<Rightarrow>
          (case find_first (named [str ''p'']) container of
             None \<Rightarrow> summary_from_containers soup selectors
           | Some paragraph \<Rightarrow> clean_text (Some (get_text paragraph))))"

definition extract_summary :: "node \<Rightarrow> ustr" where
  "extract_summary soup =
     (let summary0 =
            (case find_first (\<lambda>el. named [str ''meta''] el
                                 \<and> attr_is (str ''name'') (str ''description'') el) soup of
               None \<Rightarrow> []
             | Some meta_desc \<Rightarrow>
                 if truthy (get meta_desc (str ''content''))
                 then clean_text (get meta_desc (str ''content''))
                 else []);
          summary1 = (if summary0 = [] then summary_from_containers soup content_selectors
                      else summary0)
      in if summary1 = [] then
           (case find_first (named [str ''p'']) soup of
              None \<Rightarrow> []
            | Some paragraph \<Rightarrow> clean_text (Some (get_text paragraph)))
         else summary1)"

text \<open>
  \<^verbatim>\<open>
      event_date = extract_event_date(soup)
      date_value = event_date if event_date else ""
      return {'Title': title, 'Date': date_value, 'Description': summary, 'Link': article_url}
  \<close>
\<close>

definition extract_article_data :: "node \<Rightarrow> ustr \<Rightarrow> article" where
  "extract_article_data soup article_url =
     \<lparr>Title = extract_title soup,
      Date = (case extract_event_date soup of None \<Rightarrow> [] | Some event_date \<Rightarrow> event_date),
      Description = extract_summary soup,
      Link = article_url\<rparr>"

section \<open>PaginationNavigator: \<open>find_next_page_url\<close>\<close>

text \<open>
  \<^verbatim>\<open>
      next_button = soup.find('a', class_=['next', 'next-page', 'pagination-next'])
      if next_button and next_button.get('href'):
          return urljoin(current_url, next_button['href'])
      for link in soup.find_all('a'):
          text = link.get_text(strip=True).lower()
          href = link.get('href')
          if href and ('next' in text or '...' in text):
              return urljoin(current_url, href)
      return None
  \<close>
  The character searched for besides \<open>next\<close> is the right arrow, U+2192.
\<close>

definition next_classes :: "ustr list" where
  "next_classes = map str [''next'', ''next-page'', ''pagination-next'']"

fun next_by_text :: "urllib \<Rightarrow> ustr \<Rightarrow> node list \<Rightarrow> error + ustr option" where
  "next_by_text U current_url [] = Inr None"
| "next_by_text U current_url (link # others) =
     (let text = lower (get_text_strip link)
      in case get link (str ''href'') of
           None \<Rightarrow> next_by_text U current_url others
         | Some href \<Rightarrow>
             if href \<noteq> [] \<and> (contains (str ''next'') text \<or> contains [8594] text)
             then map_sum id Some (urljoin U current_url href)
             else next_by_text U current_url others)"

definition find_next_page_url :: "urllib \<Rightarrow> node \<Rightarrow> ustr \<Rightarrow> error + ustr option" where
  "find_next_page_url U soup current_url =
     (let next_button =
            find_first (\<lambda>el. named [str ''a''] el \<and> class_matches (\<lambda>v. v \<in> set next_classes) el) soup;
          button_href = (case next_button of None \<Rightarrow> None
                         | Some b \<Rightarrow> get b (str ''href''))
      in case button_href of
           None \<Rightarrow> next_by_text U current_url (find_all (named [str ''a'']) soup)
         | Some href \<Rightarrow>
             if href \<noteq> []
             then map_sum id Some (urljoin U current_url href)
             else next_by_text U current_url (find_all (named [str ''a'']) soup))"

section \<open>CrawlOrchestrator: \<open>scrape_activities\<close>\<close>

text \<open>
  \<open>fetch_page\<close> is the one effect of the crawl. The site is a function that answers a
  request for a URL, given the requests made before it: \<open>Inr\<close> the page (parsed, see
  above) or \<open>Inl\<close> the exception of \<open>requests\<close> (network error, timeout, HTTP status).
\<close>

type_synonym web = "ustr list \<Rightarrow> ustr \<Rightarrow> error + node"

text \<open>
  The variables of the loop, \<open>all_data\<close>, \<open>page_num\<close> and \<open>current_url\<close>, with the record of
  what was requested: \<open>pages\<close> are the listing URLs handed to \<open>fetch_page\<close> by the page loop
  (the lines \<open>URL: ...\<close> it prints), \<open>requests\<close> every URL handed to \<open>fetch_page\<close>.
\<close>

record crawl =
  all_data :: "article list"
  page_num :: nat
  current_url :: "ustr option"
  pages :: "ustr list"
  requests :: "ustr list"

text \<open>
  \<^verbatim>\<open>
                  for idx, link in enumerate(article_links, 1):
                      try:
                          article_html = fetch_page(link, session)
                          article_data = extract_article_data(article_html, link)
                          all_data.append(article_data)
                      except Exception as e:
                          print(f"FAILED ({str(e)[:30]})")
  \<close>
\<close>

fun fetch_articles :: "web \<Rightarrow> ustr list \<Rightarrow> crawl \<Rightarrow> crawl" where
  "fetch_articles W [] st = st"
| "fetch_articles W (link # links) st =
     fetch_articles W links
       (case W (requests st) link of
          Inl e \<Rightarrow> st\<lparr>requests := requests st @ [link]\<rparr>
        | Inr article_html \<Rightarrow>
            st\<lparr>all_data := all_data st @ [extract_article_data article_html link],
               requests := requests st @ [link]\<rparr>)"

text \<open>
  One turn of the \<open>while\<close> loop. The flag of the result says that the loop was left by
  \<open>break\<close>, which the handler of the outer \<open>try\<close> does for any exception of the listing
  page: of its fetch, of \<open>extract_links\<close> or of \<open>find_next_page_url\<close>.
  \<^verbatim>\<open>
          page_num += 1
          try:
              page_html = fetch_page(current_url, session)
              article_links = extract_links(page_html, current_url)
              if not article_links: ...
              else:
                  for idx, link in enumerate(article_links, 1): ...
              next_page = find_next_page_url(page_html, current_url)
              current_url = next_page
          except Exception as e:
              print(f"  Error processing page: {e}")
              break
  \<close>
\<close>

definition process_page :: "urllib \<Rightarrow> web \<Rightarrow> crawl \<Rightarrow> crawl \<times> bool" where
  "process_page U W st0 =
     (case current_url st0 of
        None \<Rightarrow> (st0, True)
      | Some url \<Rightarrow>
          (let st = st0\<lparr>page_num := page_num st0 + 1, pages := pages st0 @ [url],
                        requests := requests st0 @ [url]\<rparr>
           in case W (requests st0) url of
                Inl e \<Rightarrow> (st, True)
              | Inr page_html \<Rightarrow>
                  (case extract_links U page_html url of
                     Inl e \<Rightarrow> (st, True)
                   | Inr article_links \<Rightarrow>
                       (let st' = fetch_articles W article_links st
                        in case find_next_page_url U page_html url of
                             Inl e \<Rightarrow> (st', True)
                           | Inr next_page \<Rightarrow> (st'\<lparr>current_url := next_page\<rparr>, False)))))"

text \<open>
  \<^verbatim>\<open>
      while current_url and (MAX_PAGES is None or page_num < MAX_PAGES):
  \<close>
  Without a page ceiling the loop need not end, so it is a partial function: \<open>None\<close> is a
  crawl that never returns.
\<close>

definition loop_condition :: "nat option \<Rightarrow> crawl \<Rightarrow> bool" where
  "loop_condition max_pages st \<longleftrightarrow>
     truthy (current_url st) \<and> (case max_pages of None \<Rightarrow> True | Some n \<Rightarrow> page_num st < n)"

partial_function (option) scrape_loop :: "urllib \<Rightarrow> web \<Rightarrow> nat option \<Rightarrow> crawl \<Rightarrow> crawl option" where
  "scrape_loop U W max_pages st =
     (if loop_condition max_pages st then
        (case process_page U W st of
           (st', stopped) \<Rightarrow> if stopped then Some st' else scrape_loop U W max_pages st')
      else Some st)"

declare scrape_loop.simps [code]

text \<open>
  \<^verbatim>\<open>
      all_data = []
      page_num = 0
      current_url = BASE_URL
      while ...
      writer.writeheader()
      for row in all_data:
          writer.writerow(row)
  \<close>
  The result of a crawl is the sequence of rows handed to the CSV writer. The start URL
  and the page ceiling are module constants; \<open>crawl_from\<close> takes them as arguments and
  \<open>scrape_activities\<close> is the crawl with the values the module sets.
\<close>

definition initial :: "ustr \<Rightarrow> crawl" where
  "initial base_url =
     \<lparr>all_data = [], page_num = 0, current_url = Some base_url, pages = [], requests = []\<rparr>"

definition crawl_from :: "urllib \<Rightarrow> web \<Rightarrow> ustr \<Rightarrow> nat option \<Rightarrow> article list option" where
  "crawl_from U W base_url max_pages =
     map_option all_data (scrape_loop U W max_pages (initial base_url))"

definition BASE_URL :: ustr where
  "BASE_URL = str ''https://www.univ-eloued.dz/ar/''"

definition MAX_PAGES :: "nat option" where
  "MAX_PAGES = Some 1"

definition scrape_activities :: "urllib \<Rightarrow> web \<Rightarrow> article list option" where
  "scrape_activities U W = crawl_from U W BASE_URL MAX_PAGES"

section \<open>Example pages\<close>

text \<open>
  The examples use absolute URLs of the shape \<open>https://host/path\<close> only. On these
  \<open>urljoin(base, url)\<close> is \<open>url\<close> and the host is the text between \<open>//\<close> and the next
  \<open>/\<close>, which is all \<open>example_urllib\<close> implements.
\<close>

definition example_urllib :: urllib where
  "example_urllib =
     \<lparr>urljoin = (\<lambda>base url. Inr url),
      netloc = (\<lambda>url. Inr (takeWhile (\<lambda>c. c \<noteq> 47) (drop 2 (dropWhile (\<lambda>c. c \<noteq> 47) url))))\<rparr>"

text \<open>A text with blanks, a newline, a carriage return and tabs around three letters.\<close>

definition untidy_text :: ustr where
  "untidy_text = str ''  a '' @ [10, 13, 9] @ str ''b'' @ [9, 32, 32] @ str ''c '' @ [10]"

definition document :: "node list \<Rightarrow> node" where
  "document cs = Tag (str ''[document]'') [] cs"

text \<open>
  \<^verbatim>\<open><article><a href="https://www.univ-eloued.dz/ar">Home</a></article>\<close>
  a listing page whose only entry links to the listing itself, written without the
  trailing slash.
\<close>

definition self_link_page :: node where
  "self_link_page =
     document
       [Tag (str ''article'') []
          [Tag (str ''a'') [(str ''href'', str ''https://www.univ-eloued.dz/ar'')]
             [NavigableString (str ''Home'')]]]"

text \<open>
  \<^verbatim>\<open><article><a href="https://www.univ-eloued.dz/ar/news/1">One</a></article>
  <p><a href="https://www.univ-eloued.dz/ar/news/2">Two</a>
     <a href="https://www.univ-eloued.dz/ar/news/1">One again</a>
     <a href="https://www.univ-eloued.dz/ar/">Home</a></p>
  <a class="next" href="https://www.univ-eloued.dz/ar/page/2/">next</a>\<close>
\<close>

definition news_1 :: ustr where
  "news_1 = str ''https://www.univ-eloued.dz/ar/news/1''"

definition news_2 :: ustr where
  "news_2 = str ''https://www.univ-eloued.dz/ar/news/2''"

definition page_2 :: ustr where
  "page_2 = str ''https://www.univ-eloued.dz/ar/page/2/''"

definition listing_page :: node where
  "listing_page =
     document
       [Tag (str ''article'') []
          [Tag (str ''a'') [(str ''href'', news_1)] [NavigableString (str ''One'')]],
        Tag (str ''p'') []
          [Tag (str ''a'') [(str ''href'', news_2)] [NavigableString (str ''Two'')],
           Tag (str ''a'') [(str ''href'', news_1)] [NavigableString (str ''One again'')],
           Tag (str ''a'') [(str ''href'', BASE_URL)] [NavigableString (str ''Home'')]],
        Tag (str ''a'') [(str ''class'', str ''next''), (str ''href'', page_2)]
          [NavigableString (str ''next'')]]"

text \<open>
  \<^verbatim>\<open><a class="next" href="https://www.univ-eloued.dz/ar/">next</a>\<close>
  a listing page whose next link is its own address, and a site that answers every
  request with it.
\<close>

definition cyclic_page :: node where
  "cyclic_page =
     document
       [Tag (str ''a'') [(str ''class'', str ''next''), (str ''href'', BASE_URL)]
          [NavigableString (str ''next'')]]"

definition cyclic_site :: web where
  "cyclic_site log url = Inr cyclic_page"

text \<open>
  \<^verbatim>\<open><h1>Open day</h1><time datetime="2024-05-01">May 1st</time>\<close>
  and the same page with a text in the time element that is a date of its own,
  \<^verbatim>\<open><h1>Open day</h1><time datetime="2024-05-01">March 3, 2020</time>\<close>
\<close>

definition may_first :: node where
  "may_first =
     Tag (str ''time'') [(str ''datetime'', str ''2024-05-01'')]
       [NavigableString (str ''May 1st'')]"

definition conflicting_time_page :: node where
  "conflicting_time_page =
     document
       [Tag (str ''h1'') [] [NavigableString (str ''Open day'')],
        Tag (str ''time'') [(str ''datetime'', str ''2024-05-01'')]
          [NavigableString (str ''March 3, 2020'')]]"

definition time_tag_page :: node where
  "time_tag_page =
     document
       [Tag (str ''h1'') [] [NavigableString (str ''Open day'')], may_first]"

text \<open>
  \<^verbatim>\<open><div id="post-date">2024-03-15</div>\<close> and
  \<^verbatim>\<open><div class="post-date">2024-03-15</div>\<close>
\<close>

definition date_by_id_page :: node where
  "date_by_id_page =
     document
       [Tag (str ''div'') [(str ''id'', str ''post-date'')]
          [NavigableString (str ''2024-03-15'')]]"

definition date_by_class_page :: node where
  "date_by_class_page =
     document
       [Tag (str ''div'') [(str ''class'', str ''post-date'')]
          [NavigableString (str ''2024-03-15'')]]"

text \<open>
  \<^verbatim>\<open><title>University news</title><h1> </h1>\<close>
\<close>

definition blank_h1_page :: node where
  "blank_h1_page =
     document
       [Tag (str ''title'') [] [NavigableString (str ''University news'')],
        Tag (str ''h1'') [] [NavigableString (str '' '')]]"

text \<open>
  A site that serves the listing page above and the second of its articles and fails on
  every other request, so also on the first article and on the second listing page;
  the state of a crawl of it after the first listing page; and a site that is down.
\<close>

definition article_page :: node where
  "article_page =
     document
       [Tag (str ''h1'') [] [NavigableString (str ''Open day'')],
        Tag (str ''p'') [] [NavigableString (str ''All welcome.'')]]"

definition flaky_site :: web where
  "flaky_site log url =
     (if url = BASE_URL then Inr listing_page
      else if url = news_2 then Inr article_page
      else Inl RequestException)"

definition after_first_page :: crawl where
  "after_first_page = fst (process_page example_urllib flaky_site (initial BASE_URL))"

definition down_site :: web where
  "down_site log url = Inl RequestException"

section \<open>Properties of \<open>clean_text\<close>\<close>

lemma str_blank: "str '' '' = [32]"
  by (simp add: str_def)

lemma set_re_sub_plus: "set (re_sub_plus p repl s) \<subseteq> set repl \<union> {c \<in> set s. \<not> p c}"
proof (induction p repl s rule: re_sub_plus.induct)
  case (1 p repl)
  then show ?case by simp
next
  case (2 p repl c cs)
  show ?case
  proof (cases "p c")
    case True
    have "set (dropWhile p cs) \<subseteq> set cs" by (auto dest: set_dropWhileD)
    with 2(1)[OF True] True show ?thesis by auto
  next
    case False
    with 2(2)[OF False] show ?thesis by auto
  qed
qed

lemma re_sub_plus_hd:
  "s = [] \<or> \<not> p (hd s) \<Longrightarrow> re_sub_plus p repl s = [] \<or> \<not> p (hd (re_sub_plus p repl s))"
  by (cases s) auto

lemma dropWhile_hd: "dropWhile p cs = [] \<or> \<not> p (hd (dropWhile p cs))"
  using hd_dropWhile by blast

lemma nodbl_Cons: "nodbl s \<Longrightarrow> s = [] \<or> hd s \<noteq> 32 \<or> a \<noteq> 32 \<Longrightarrow> nodbl (a # s)"
  by (cases s) auto

lemma nodbl_re_sub_plus: "p 32 \<Longrightarrow> nodbl (re_sub_plus p [32] s)"
proof (induction p "[32::int]" s rule: re_sub_plus.induct)
  case (1 p)
  then show ?case by simp
next
  case (2 p c cs)
  show ?case
  proof (cases "p c")
    case True
    let ?r = "re_sub_plus p [32] (dropWhile p cs)"
    have "?r = [] \<or> \<not> p (hd ?r)"
      by (rule re_sub_plus_hd) (rule dropWhile_hd)
    with 2(3) have "?r = [] \<or> hd ?r \<noteq> 32" by auto
    with 2(1)[OF True 2(3)] True show ?thesis
      by (simp add: nodbl_Cons)
  next
    case False
    with 2(3) have "c \<noteq> 32" by auto
    with 2(2)[OF False 2(3)] False show ?thesis
      by (simp add: nodbl_Cons)
  qed
qed

lemma nodbl_append: "nodbl (xs @ ys) \<Longrightarrow> nodbl xs \<and> nodbl ys"
  by (induction xs rule: nodbl.induct) (auto elim: nodbl.elims)

lemma nodbl_no_run: "nodbl s \<Longrightarrow> s \<noteq> ys @ 32 # 32 # zs"
proof
  assume a: "nodbl s" and b: "s = ys @ 32 # 32 # zs"
  then have "nodbl (32 # 32 # zs)" using nodbl_append by blast
  then show False by simp
qed

lemma lstrip_split: "\<exists>xs. s = xs @ lstrip s"
  unfolding lstrip_def by (metis takeWhile_dropWhile_id)

lemma rstrip_split: "\<exists>xs. s = rstrip s @ xs"
  unfolding rstrip_def by (metis rev_append rev_rev_ident takeWhile_dropWhile_id)

lemma strip_split: "\<exists>xs ys. s = xs @ strip s @ ys"
  unfolding strip_def using lstrip_split rstrip_split by metis

lemma strip_ends:
  "strip s \<noteq> [] \<Longrightarrow> \<not> isspace (hd (strip s)) \<and> \<not> isspace (last (strip s))"
proof
  assume ne: "strip s \<noteq> []"
  let ?x = "lstrip s"
  from ne have "dropWhile isspace (rev ?x) \<noteq> []"
    by (simp add: strip_def rstrip_def)
  then have "\<not> isspace (hd (dropWhile isspace (rev ?x)))"
    by (rule hd_dropWhile)
  then show "\<not> isspace (last (strip s))"
    using ne by (simp add: strip_def rstrip_def last_rev)
  obtain ys where x: "?x = strip s @ ys"
    using rstrip_split[of ?x] by (auto simp: strip_def)
  with ne have "?x \<noteq> []" and "hd ?x = hd (strip s)" by auto
  moreover have "\<not> isspace (hd ?x)" using \<open>?x \<noteq> []\<close>
    unfolding lstrip_def by (rule hd_dropWhile)
  ultimately show "\<not> isspace (hd (strip s))" by simp
qed

text \<open>
  Claim C6. Whatever the input, the text \<open>clean_text\<close> returns holds no tab, newline or
  carriage return and no two blanks in a row, and neither starts nor ends with white
  space; for \<open>None\<close> and for the empty string it is the empty string.
\<close>

theorem clean_text_normalized:
  "(\<forall>c \<in> set (clean_text text). c \<noteq> 9 \<and> c \<noteq> 10 \<and> c \<noteq> 13) \<and>
   (\<forall>ys zs. clean_text text \<noteq> ys @ str ''  '' @ zs) \<and>
   (clean_text text \<noteq> [] \<longrightarrow>
      \<not> isspace (hd (clean_text text)) \<and> \<not> isspace (last (clean_text text))) \<and>
   clean_text None = [] \<and> clean_text (Some []) = []"
proof -
  have e: "clean_text None = [] \<and> clean_text (Some []) = []"
    by (simp add: clean_text_def)
  show ?thesis
  proof (cases "\<exists>t. text = Some t \<and> t \<noteq> []")
    case False
    then have "clean_text text = []"
      by (cases "text") (auto simp: clean_text_def)
    with e show ?thesis by (simp add: str_def)
  next
    case True
    then obtain t where t: "text = Some t" "t \<noteq> []" by blast
    let ?a = "re_sub_plus nl_cr_tab [32] t"
    let ?b = "re_sub_plus isspace [32] ?a"
    have r: "clean_text text = strip ?b"
      using t by (simp add: clean_text_def str_blank)
    obtain xs ys where b: "?b = xs @ strip ?b @ ys"
      using strip_split by blast
    have "set ?a \<subseteq> {32} \<union> {c \<in> set t. \<not> nl_cr_tab c}"
      using set_re_sub_plus[of nl_cr_tab "[32]" t] by simp
    then have a: "\<forall>c \<in> set ?a. \<not> nl_cr_tab c"
      by (auto simp: nl_cr_tab_def)
    have "set ?b \<subseteq> {32} \<union> {c \<in> set ?a. \<not> isspace c}"
      using set_re_sub_plus[of isspace "[32]" ?a] by simp
    with a have "\<forall>c \<in> set ?b. \<not> nl_cr_tab c"
      by (auto simp: nl_cr_tab_def)
    moreover have "set (strip ?b) \<subseteq> set ?b"
      by (subst (2) b) auto
    ultimately have 1: "\<forall>c \<in> set (clean_text text). c \<noteq> 9 \<and> c \<noteq> 10 \<and> c \<noteq> 13"
      unfolding r by (auto simp: nl_cr_tab_def)
    have "nodbl ?b"
      by (rule nodbl_re_sub_plus) (simp add: isspace_def)
    then have "nodbl (strip ?b)"
      by (subst (asm) b) (blast dest: nodbl_append)
    then have 2: "\<forall>ys zs. clean_text text \<noteq> ys @ str ''  '' @ zs"
      unfolding r using nodbl_no_run by (simp add: str_def)
    have 3: "clean_text text \<noteq> [] \<longrightarrow>
      \<not> isspace (hd (clean_text text)) \<and> \<not> isspace (last (clean_text text))"
      unfolding r using strip_ends by blast
    from 1 2 3 e show ?thesis by blast
  qed
qed

text \<open>
  The theorem at \<open>untidy_text\<close>, which has tabs, newlines and runs of blanks inside and
  around it: the result is \<open>a b c\<close>, which is not empty.
\<close>

theorem clean_text_normalized_witness:
  "clean_text (Some untidy_text) = str ''a b c'' \<and>
   clean_text (Some untidy_text) \<noteq> [] \<and>
   \<not> isspace (hd (clean_text (Some untidy_text))) \<and>
   \<not> isspace (last (clean_text (Some untidy_text)))"
proof -
  have v: "clean_text (Some untidy_text) = str ''a b c''"
    by code_simp
  have "str ''a b c'' \<noteq> []"
    by (simp add: str_def)
  with v clean_text_normalized [of "Some untidy_text"]
  show ?thesis by simp
qed

section \<open>Properties of \<open>parse_date_string\<close>\<close>

text \<open>
  Claim C5. \<open>parse_date_string\<close> returns \<open>None\<close> for the empty string and for \<open>None\<close>; the
  function is total, so there is no exception in either case.
\<close>

theorem parse_date_string_empty:
  "parse_date_string (Some []) = None \<and> parse_date_string None = None"
  by (simp add: parse_date_string_def)

text \<open>
  Claim C3. Each of \<open>2024-03-15\<close>, \<open>March 15, 2024\<close>, \<open>15/03/2024\<close>, \<open>15-03-2024\<close> and the
  Arabic month name for March followed by \<open>15, 2024\<close> resolves to \<open>2024-03-15\<close>.
\<close>

theorem parse_date_string_known_formats:
  "parse_date_string (Some (str ''2024-03-15'')) = Some (str ''2024-03-15'') \<and>
   parse_date_string (Some (str ''March 15, 2024'')) = Some (str ''2024-03-15'') \<and>
   parse_date_string (Some (str ''15/03/2024'')) = Some (str ''2024-03-15'') \<and>
   parse_date_string (Some (str ''15-03-2024'')) = Some (str ''2024-03-15'') \<and>
   parse_date_string (Some ([1605, 1575, 1585, 1587] @ str '' 15, 2024'')) =
     Some (str ''2024-03-15'')"
  by code_simp

subsection \<open>Every strategy checks the calendar\<close>

lemma datetime_valid: "datetime y m d = Some dt \<Longrightarrow> valid_date dt"
  by (auto simp: datetime_def split: if_splits)

lemma fromisoformat_valid: "fromisoformat s = Some dt \<Longrightarrow> valid_date dt"
  by (auto simp: fromisoformat_def split: if_splits option.splits dest: datetime_valid)

lemma strptime_fields_valid: "strptime_fields found = Some dt \<Longrightarrow> valid_date dt"
  by (auto simp: strptime_fields_def Let_def split: option.splits dest: datetime_valid)

lemma strptime_valid: "strptime s fmt = Some dt \<Longrightarrow> valid_date dt"
  by (auto simp: strptime_def split: option.splits if_splits dest: strptime_fields_valid)

lemma try_iso_valid: "try_iso s = Some r \<Longrightarrow> \<exists>dt. valid_date dt \<and> r = strftime_ymd dt"
  by (auto simp: try_iso_def dest: fromisoformat_valid)

lemma try_formats_valid:
  "try_formats s fmts = Some r \<Longrightarrow> \<exists>dt. valid_date dt \<and> r = strftime_ymd dt"
  by (induction fmts) (auto split: option.splits dest: strptime_valid)

lemma try_arabic_valid: "try_arabic s = Some r \<Longrightarrow> \<exists>dt. valid_date dt \<and> r = strftime_ymd dt"
  by (auto simp: try_arabic_def split: option.splits dest: datetime_valid)

lemma try_english_valid: "try_english s = Some r \<Longrightarrow> \<exists>dt. valid_date dt \<and> r = strftime_ymd dt"
proof -
  assume a: "try_english s = Some r"
  show ?thesis
  proof (cases "re_search english_re s")
    case None
    with a show ?thesis by (simp add: try_english_def)
  next
    case (Some m2)
    with a have "try_formats (group0 m2) [str ''%B %d, %Y'', str ''%b %d, %Y''] = Some r"
      by (simp add: try_english_def del: try_formats.simps)
    then show ?thesis by (rule try_formats_valid)
  qed
qed

lemma parse_date_string_valid:
  "parse_date_string s = Some r \<Longrightarrow> \<exists>dt. valid_date dt \<and> r = strftime_ymd dt"
proof -
  assume a: "parse_date_string s = Some r"
  then obtain s1 where s: "s = Some s1" "s1 \<noteq> []"
    by (cases s) (auto simp: parse_date_string_def split: if_splits)
  let ?s = "strip s1"
  from a s have
    "try_iso ?s = Some r \<or> try_formats ?s formats = Some r \<or> try_arabic ?s = Some r \<or>
     try_english ?s = Some r"
    by (auto simp: parse_date_string_def Let_def split: option.splits)
  then show ?thesis
    using try_iso_valid try_formats_valid try_arabic_valid try_english_valid by blast
qed


lemma length_zero_padded: "length (zero_padded w n) = w"
  by (induction w arbitrary: n) auto

lemma length_strftime_ymd: "length (strftime_ymd dt) = 10"
  by (cases dt) (simp add: strftime_ymd_def length_zero_padded str_def)

lemma parse_date_string_nonempty: "parse_date_string s = Some r \<Longrightarrow> r \<noteq> []"
proof -
  assume "parse_date_string s = Some r"
  then obtain dt where "r = strftime_ymd dt"
    using parse_date_string_valid by blast
  then have "length r = 10" by (simp add: length_strftime_ymd)
  then show "r \<noteq> []" by auto
qed



section \<open>Properties of the article extractors\<close>

lemma parsed_or_none_parse: "parsed_or_none (parse_date_string s) = parse_date_string s"
  by (cases "parse_date_string s")
     (auto simp: parsed_or_none_def truthy_def dest: parse_date_string_nonempty)

text \<open>
  Claim C7. When the first \<open>time\<close> element of an article page has a \<open>datetime\<close> attribute
  that \<open>parse_date_string\<close> resolves, that date is the result of \<open>extract_event_date\<close> and
  the \<open>Date\<close> of the record, whatever the text of the element and the rest of the page
  hold: the text, the meta tags, the date elements and the body are not consulted.
\<close>

theorem time_attribute_first:
  assumes "find_first (named [str ''time'']) soup = Some time_tag"
    and "get time_tag (str ''datetime'') = Some dt_attr"
    and "parse_date_string (Some dt_attr) = Some parsed"
  shows "extract_event_date soup = Some parsed \<and>
         Date (extract_article_data soup article_url) = parsed"
proof -
  have "dt_attr \<noteq> []"
    using assms(3) by (auto simp: parse_date_string_def)
  then have "truthy (Some dt_attr)"
    by (simp add: truthy_def)
  moreover have "parsed_or_none (Some parsed) = Some parsed"
    using parsed_or_none_parse [of "Some dt_attr"] assms(3) by simp
  ultimately have "date_from_time_tag soup = Some parsed"
    using assms by (simp add: date_from_time_tag_def)
  then have "extract_event_date soup = Some parsed"
    by (simp add: extract_event_date_def)
  then show ?thesis
    by (simp add: extract_article_data_def)
qed

text \<open>
  The theorem at the page of the claim, whose time element reads \<open>May 1st\<close>, and at a
  page whose time element reads \<open>March 3, 2020\<close>, a date of its own: both give
  \<open>2024-05-01\<close>.
\<close>

theorem time_attribute_first_witness:
  "find_first (named [str ''time'']) time_tag_page = Some may_first \<and>
   get may_first (str ''datetime'') = Some (str ''2024-05-01'') \<and>
   parse_date_string (Some (str ''2024-05-01'')) = Some (str ''2024-05-01'') \<and>
   extract_event_date time_tag_page = Some (str ''2024-05-01'') \<and>
   Date (extract_article_data time_tag_page news_1) = str ''2024-05-01'' \<and>
   parse_date_string (Some (str ''March 3, 2020'')) = Some (str ''2020-03-03'') \<and>
   extract_event_date conflicting_time_page = Some (str ''2024-05-01'')"
proof -
  have a: "find_first (named [str ''time'']) time_tag_page = Some may_first"
    by code_simp
  have b: "get may_first (str ''datetime'') = Some (str ''2024-05-01'')"
    by code_simp
  have c: "parse_date_string (Some (str ''2024-05-01'')) = Some (str ''2024-05-01'')"
    by code_simp
  have d: "find_first (named [str ''time'']) conflicting_time_page =
      Some (Tag (str ''time'') [(str ''datetime'', str ''2024-05-01'')]
              [NavigableString (str ''March 3, 2020'')])"
    by code_simp
  have e: "get (Tag (str ''time'') [(str ''datetime'', str ''2024-05-01'')]
              [NavigableString (str ''March 3, 2020'')]) (str ''datetime'') =
      Some (str ''2024-05-01'')"
    by code_simp
  have f: "parse_date_string (Some (str ''March 3, 2020'')) = Some (str ''2020-03-03'')"
    by code_simp
  from a b c f time_attribute_first [OF a b c, of news_1] time_attribute_first [OF d e c]
  show ?thesis by simp
qed

text \<open>
  Claim C8, which the code does not meet. The comment of the third strategy of
  \<open>extract_event_date\<close> reads ``elements whose class or id suggests a date'', but the
  search is \<open>find_all(class_=...)\<close>: an element whose id alone matches is not found. On a
  page that holds only \<open><div id="post-date">2024-03-15</div>\<close> no date is extracted,
  although the text resolves to a date and although the same element with \<open>post-date\<close> as
  its class yields it.
\<close>

theorem date_element_by_id_not_found:
  "extract_event_date date_by_id_page = None \<and>
   date_elements date_by_id_page = [] \<and>
   parse_date_string (Some (str ''2024-03-15'')) = Some (str ''2024-03-15'') \<and>
   extract_event_date date_by_class_page = Some (str ''2024-03-15'')"
  by code_simp

text \<open>
  Claim C10. When the page has an \<open>h1\<close> element whose text cleans to the empty string,
  the \<open>Title\<close> of the record is empty: the \<open>title\<close> element is not looked at, whatever it
  holds.
\<close>

theorem title_empty_when_h1_blank:
  assumes "find_first (named [str ''h1'']) soup = Some h1"
    and "clean_text (Some (get_text h1)) = []"
  shows "Title (extract_article_data soup article_url) = []"
  using assms by (simp add: extract_article_data_def extract_title_def)

text \<open>
  The theorem at a page with the title \<open>University news\<close> and an \<open>h1\<close> that holds one
  blank.
\<close>

theorem title_empty_when_h1_blank_witness:
  "find_first (named [str ''h1'']) blank_h1_page =
     Some (Tag (str ''h1'') [] [NavigableString (str '' '')]) \<and>
   clean_text (Some (get_text (Tag (str ''h1'') [] [NavigableString (str '' '')]))) = [] \<and>
   map_option string_of (find_first (named [str ''title'']) blank_h1_page) =
     Some (Some (str ''University news'')) \<and>
   Title (extract_article_data blank_h1_page news_1) = []"
proof -
  have a: "find_first (named [str ''h1'']) blank_h1_page =
     Some (Tag (str ''h1'') [] [NavigableString (str '' '')])"
    by code_simp
  have b: "clean_text (Some (get_text (Tag (str ''h1'') [] [NavigableString (str '' '')]))) = []"
    by code_simp
  have c: "map_option string_of (find_first (named [str ''title'']) blank_h1_page) =
     Some (Some (str ''University news''))"
    by code_simp
  from a b c title_empty_when_h1_blank [OF a b, of news_1]
  show ?thesis by simp
qed

section \<open>Properties of \<open>extract_links\<close>\<close>

lemma add_unseen_inv:
  "distinct (fst st) \<and> snd st = set (fst st) \<Longrightarrow>
   distinct (fst (add_unseen url st)) \<and> snd (add_unseen url st) = set (fst (add_unseen url st))"
  by (cases st) (auto simp: add_unseen_def)

lemma first_links_inv:
  "first_links U base_url els st = Inr st' \<Longrightarrow> distinct (fst st) \<and> snd st = set (fst st) \<Longrightarrow>
   distinct (fst st') \<and> snd st' = set (fst st')"
proof (induction els arbitrary: st)
  case Nil
  then show ?case by simp
next
  case (Cons el els)
  show ?case
  proof (cases "find_first a_href el")
    case None
    with Cons show ?thesis by simp
  next
    case (Some link)
    with Cons.prems(1) obtain href url where
      u: "get link (str ''href'') = Some href" "urljoin U base_url href = Inr url"
      and r: "first_links U base_url els (add_unseen url st) = Inr st'"
      by (auto split: option.splits sum.splits)
    from Cons.IH [OF r add_unseen_inv [OF Cons.prems(2)]] show ?thesis .
  qed
qed

lemma internal_links_inv:
  "internal_links U base_url domain ls st = Inr st' \<Longrightarrow>
   distinct (fst st) \<and> snd st = set (fst st) \<Longrightarrow>
   distinct (fst st') \<and> snd st' = set (fst st') \<and>
   (\<exists>new. fst st' = fst st @ new \<and>
      (\<forall>url \<in> set new. rstrip_slash url \<noteq> rstrip_slash base_url))"
proof (induction ls arbitrary: st)
  case Nil
  then show ?case by simp
next
  case (Cons link ls)
  obtain links seen where st: "st = (links, seen)" by (cases st)
  from Cons.prems(1) obtain href url url_netloc where
    u: "get link (str ''href'') = Some href" "urljoin U base_url href = Inr url"
       "netloc U url = Inr url_netloc"
    by (auto split: option.splits sum.splits)
  let ?st1 = "if endswith url_netloc domain \<and> url \<notin> seen then
                (if rstrip_slash url \<noteq> rstrip_slash base_url
                 then (links @ [url], insert url seen) else (links, seen))
              else (links, seen)"
  from Cons.prems(1) u st have r: "internal_links U base_url domain ls ?st1 = Inr st'"
    by simp
  have inv1: "distinct (fst ?st1) \<and> snd ?st1 = set (fst ?st1)"
    using Cons.prems(2) st by auto
  have step: "\<exists>new1. fst ?st1 = fst st @ new1 \<and>
      (\<forall>url \<in> set new1. rstrip_slash url \<noteq> rstrip_slash base_url)"
    using st by auto
  from Cons.IH [OF r inv1] obtain new where
    a: "distinct (fst st') \<and> snd st' = set (fst st')"
    and b: "fst st' = fst ?st1 @ new"
    and c: "\<forall>url \<in> set new. rstrip_slash url \<noteq> rstrip_slash base_url"
    by blast
  from step obtain new1 where
    d: "fst ?st1 = fst st @ new1"
    and e: "\<forall>url \<in> set new1. rstrip_slash url \<noteq> rstrip_slash base_url"
    by blast
  from b d have "fst st' = fst st @ (new1 @ new)" by simp
  moreover from c e have "\<forall>url \<in> set (new1 @ new). rstrip_slash url \<noteq> rstrip_slash base_url"
    by auto
  ultimately show ?case using a by blast
qed

lemma container_and_heading_links_inv:
  "container_and_heading_links U soup base_url = Inr st \<Longrightarrow>
   distinct (fst st) \<and> snd st = set (fst st)"
  unfolding container_and_heading_links_def
  by (auto split: sum.splits dest!: first_links_inv)

text \<open>
  Claim C1, amended. The list \<open>extract_links\<close> returns holds no URL twice. It is the list
  of the article-container and heading strategies followed by what the same-site
  fallback adds, and every URL the fallback adds differs from the base URL after the
  trailing slashes of both are removed. The URLs of the first two strategies are not
  compared with the base URL.
\<close>

theorem extract_links_distinct_fallback_filtered:
  assumes "extract_links U soup base_url = Inr links"
  shows "distinct links \<and>
         (\<exists>early seen new.
            container_and_heading_links U soup base_url = Inr (early, seen) \<and>
            links = early @ new \<and>
            (\<forall>url \<in> set new. rstrip_slash url \<noteq> rstrip_slash base_url))"
proof -
  from assms obtain st2 domain st3 where
    a: "container_and_heading_links U soup base_url = Inr st2"
    and b: "internal_links U base_url domain (find_all a_href soup) st2 = Inr st3"
    and c: "links = fst st3"
    by (auto simp: extract_links_def split: sum.splits)
  from internal_links_inv [OF b container_and_heading_links_inv [OF a]] c a
  show ?thesis by (cases st2) auto
qed

text \<open>
  The theorem at a listing page with an article entry, two more links of the site, a
  second link to the article, a link to the listing itself and a next link: the entry
  comes first, the fallback adds the two new URLs, and the listing's own URL is left out.
\<close>

theorem extract_links_distinct_fallback_filtered_witness:
  "extract_links example_urllib listing_page BASE_URL = Inr [news_1, news_2, page_2] \<and>
   distinct [news_1, news_2, page_2] \<and>
   container_and_heading_links example_urllib listing_page BASE_URL = Inr ([news_1], {news_1}) \<and>
   rstrip_slash news_2 \<noteq> rstrip_slash BASE_URL \<and>
   rstrip_slash page_2 \<noteq> rstrip_slash BASE_URL"
proof -
  have a: "extract_links example_urllib listing_page BASE_URL = Inr [news_1, news_2, page_2]"
    by code_simp
  have b: "container_and_heading_links example_urllib listing_page BASE_URL =
      Inr ([news_1], {news_1})"
    by code_simp
  from extract_links_distinct_fallback_filtered [OF a] a b
  show ?thesis by auto
qed

text \<open>
  Claim C1 as stated fails: on a listing page whose article entry links to the listing
  itself (written without the trailing slash), the first strategy returns that URL,
  which equals the base URL once the trailing slashes are removed.
\<close>

theorem container_link_to_base_is_returned:
  "extract_links example_urllib self_link_page BASE_URL =
     Inr [str ''https://www.univ-eloued.dz/ar''] \<and>
   rstrip_slash (str ''https://www.univ-eloued.dz/ar'') = rstrip_slash BASE_URL"
  by code_simp

section \<open>Properties of the crawl\<close>

lemma fetch_articles_keeps:
  "page_num (fetch_articles W ls st) = page_num st \<and>
   pages (fetch_articles W ls st) = pages st \<and>
   current_url (fetch_articles W ls st) = current_url st"
  by (induction ls arbitrary: st) (auto split: sum.splits)

lemma process_page_counts:
  "current_url st = Some url \<Longrightarrow> process_page U W st = (st', stopped) \<Longrightarrow>
   page_num st' = Suc (page_num st) \<and> pages st' = pages st @ [url]"
  by (auto simp: process_page_def Let_def fetch_articles_keeps split: sum.splits)

lemma scrape_loop_ceiling:
  "length (pages st) = page_num st \<Longrightarrow> page_num st \<le> n \<Longrightarrow>
   \<exists>st'. scrape_loop U W (Some n) st = Some st' \<and> length (pages st') = page_num st' \<and>
         page_num st' \<le> n"
proof (induction "n - page_num st" arbitrary: st)
  case 0
  then have "\<not> loop_condition (Some n) st"
    by (simp add: loop_condition_def)
  then have "scrape_loop U W (Some n) st = Some st"
    by (subst scrape_loop.simps) simp
  with 0 show ?case by simp
next
  case (Suc k)
  show ?case
  proof (cases "loop_condition (Some n) st")
    case False
    then have "scrape_loop U W (Some n) st = Some st"
      by (subst scrape_loop.simps) simp
    with Suc.prems show ?thesis by simp
  next
    case True
    then obtain url where url: "current_url st = Some url"
      by (auto simp: loop_condition_def truthy_def split: option.splits)
    obtain st1 stopped where p: "process_page U W st = (st1, stopped)"
      by (cases "process_page U W st")
    from process_page_counts [OF url p]
    have c: "page_num st1 = Suc (page_num st)" "pages st1 = pages st @ [url]"
      by simp_all
    with Suc.prems Suc.hyps(2) have i: "length (pages st1) = page_num st1" "page_num st1 \<le> n"
      by simp_all
    show ?thesis
    proof (cases stopped)
      case True
      with \<open>loop_condition (Some n) st\<close> p
      have "scrape_loop U W (Some n) st = Some st1"
        by (subst scrape_loop.simps) simp
      with i show ?thesis by simp
    next
      case False
      with \<open>loop_condition (Some n) st\<close> p
      have "scrape_loop U W (Some n) st = scrape_loop U W (Some n) st1"
        by (subst scrape_loop.simps) simp
      moreover have "k = n - page_num st1"
        using Suc.hyps(2) c by simp
      ultimately show ?thesis
        using Suc.hyps(1) [OF _ i] by simp
    qed
  qed
qed

text \<open>
  Claim C2, amended. The crawl keeps no record of the listing URLs it has visited and
  fetches whatever URL \<open>find_next_page_url\<close> returns. What bounds it is the page ceiling:
  with a ceiling of \<open>n\<close> pages every crawl ends, and it has fetched at most \<open>n\<close> listing
  pages, one for each turn of the loop.
\<close>

theorem crawl_ends_at_ceiling:
  "\<exists>st. scrape_loop U W (Some n) (initial base_url) = Some st \<and>
        length (pages st) = page_num st \<and> page_num st \<le> n"
  by (rule scrape_loop_ceiling) (simp_all add: initial_def)

lemma cyclic_links: "extract_links example_urllib cyclic_page BASE_URL = Inr []"
  by code_simp

lemma cyclic_next: "find_next_page_url example_urllib cyclic_page BASE_URL = Inr (Some BASE_URL)"
  by code_simp

lemma base_url_nonempty: "BASE_URL \<noteq> []"
  by (simp add: BASE_URL_def str_def)

lemma process_page_cyclic:
  "current_url st = Some BASE_URL \<Longrightarrow>
   \<exists>st'. process_page example_urllib cyclic_site st = (st', False) \<and>
         current_url st' = Some BASE_URL"
  by (simp add: process_page_def cyclic_site_def cyclic_links cyclic_next)

lemma cyclic_never_returns:
  assumes "scrape_loop U W max_pages st = Some y"
  shows "\<not> (U = example_urllib \<and> W = cyclic_site \<and> max_pages = None \<and>
            current_url st = Some BASE_URL)"
proof (rule scrape_loop.raw_induct
    [where P = "\<lambda>U W max_pages st y. \<not> (U = example_urllib \<and> W = cyclic_site \<and>
                  max_pages = None \<and> current_url st = Some BASE_URL)", OF _ assms])
  fix f :: "urllib \<Rightarrow> web \<Rightarrow> nat option \<Rightarrow> crawl \<Rightarrow> crawl option"
  fix U W max_pages st y
  assume IH: "\<And>U W max_pages st y. f U W max_pages st = Some y \<Longrightarrow>
      \<not> (U = example_urllib \<and> W = cyclic_site \<and> max_pages = None \<and>
         current_url st = Some BASE_URL)"
  assume body: "(if loop_condition max_pages st then
        (case process_page U W st of
           (st', stopped) \<Rightarrow> if stopped then Some st' else f U W max_pages st')
      else Some st) = Some y"
  show "\<not> (U = example_urllib \<and> W = cyclic_site \<and> max_pages = None \<and>
            current_url st = Some BASE_URL)"
  proof
    assume a: "U = example_urllib \<and> W = cyclic_site \<and> max_pages = None \<and>
            current_url st = Some BASE_URL"
    then have c: "loop_condition max_pages st"
      by (simp add: loop_condition_def truthy_def base_url_nonempty)
    from a obtain st' where
      p: "process_page U W st = (st', False)" and u: "current_url st' = Some BASE_URL"
      using process_page_cyclic by blast
    from body c p have "f U W max_pages st' = Some y" by simp
    from IH [OF this] a u show False by simp
  qed
qed

lemma cyclic_diverges: "scrape_loop example_urllib cyclic_site None (initial BASE_URL) = None"
proof (cases "scrape_loop example_urllib cyclic_site None (initial BASE_URL)")
  case None
  then show ?thesis .
next
  case (Some y)
  then have False
    using cyclic_never_returns [OF Some] by (simp add: initial_def)
  then show ?thesis ..
qed

text \<open>
  Claim C2 as stated fails. On a site whose listing page names itself as the next page,
  a crawl with a ceiling of two pages fetches that URL twice, and a crawl with no
  ceiling never returns.
\<close>

theorem listing_url_fetched_again:
  "map_option pages (scrape_loop example_urllib cyclic_site (Some 2) (initial BASE_URL)) =
     Some [BASE_URL, BASE_URL] \<and>
   scrape_loop example_urllib cyclic_site None (initial BASE_URL) = None"
proof -
  have "map_option pages (scrape_loop example_urllib cyclic_site (Some 2) (initial BASE_URL)) =
     Some [BASE_URL, BASE_URL]"
    by code_simp
  with cyclic_diverges show ?thesis by simp
qed

text \<open>
  Claim C9. When the fetch of the listing page fails, the loop ends at once and the
  crawl returns with every record collected before, which are the rows that go to the
  CSV writer. When the fetch of an article fails, the article loop goes on with the
  next link, and nothing but the request is recorded for the failed one.
\<close>

theorem fetch_failure_policy:
  "(loop_condition max_pages st \<and> current_url st = Some url \<and> W (requests st) url = Inl e \<longrightarrow>
      (\<exists>st'. scrape_loop U W max_pages st = Some st' \<and> all_data st' = all_data st)) \<and>
   (W (requests st) link = Inl e \<longrightarrow>
      fetch_articles W (link # links) st =
        fetch_articles W links (st\<lparr>requests := requests st @ [link]\<rparr>))"
proof (intro conjI impI)
  assume a: "loop_condition max_pages st \<and> current_url st = Some url \<and> W (requests st) url = Inl e"
  then have "\<exists>st'. process_page U W st = (st', True) \<and> all_data st' = all_data st"
    by (simp add: process_page_def)
  then obtain st' where "process_page U W st = (st', True)" "all_data st' = all_data st"
    by blast
  with a have "scrape_loop U W max_pages st = Some st' \<and> all_data st' = all_data st"
    by (subst scrape_loop.simps) simp
  then show "\<exists>st'. scrape_loop U W max_pages st = Some st' \<and> all_data st' = all_data st"
    by blast
next
  assume "W (requests st) link = Inl e"
  then show "fetch_articles W (link # links) st =
        fetch_articles W links (st\<lparr>requests := requests st @ [link]\<rparr>)"
    by simp
qed

text \<open>
  The theorem on a site that serves its first listing page and the second of the three
  links found there, and fails on the rest. After the first page the crawl holds the
  record of the second link, the first and third having been skipped; the fetch of the
  second listing page fails, and the crawl returns with that record.
\<close>

theorem fetch_failure_policy_witness:
  "loop_condition (Some 5) after_first_page \<and>
   current_url after_first_page = Some page_2 \<and>
   flaky_site (requests after_first_page) page_2 = Inl RequestException \<and>
   map Link (all_data after_first_page) = [news_2] \<and>
   (\<exists>st'. scrape_loop example_urllib flaky_site (Some 5) after_first_page = Some st' \<and>
          all_data st' = all_data after_first_page) \<and>
   map_option (map Link) (crawl_from example_urllib flaky_site BASE_URL (Some 5)) =
     Some [news_2] \<and>
   flaky_site (requests (initial BASE_URL)) news_1 = Inl RequestException \<and>
   fetch_articles flaky_site [news_1, news_2] (initial BASE_URL) =
     fetch_articles flaky_site [news_2] ((initial BASE_URL)\<lparr>requests := [news_1]\<rparr>)"
proof -
  have a: "loop_condition (Some 5) after_first_page"
    by code_simp
  have b: "current_url after_first_page = Some page_2"
    by code_simp
  have c: "flaky_site (requests after_first_page) page_2 = Inl RequestException"
    by code_simp
  have d: "map Link (all_data after_first_page) = [news_2]"
    by code_simp
  have e: "map_option (map Link) (crawl_from example_urllib flaky_site BASE_URL (Some 5)) =
     Some [news_2]"
    by code_simp
  have f: "flaky_site (requests (initial BASE_URL)) news_1 = Inl RequestException"
    by code_simp
  have g: "requests (initial BASE_URL) = []"
    by (simp add: initial_def)
  from a b c d e f g
    fetch_failure_policy [of "Some 5" after_first_page page_2 flaky_site RequestException
      example_urllib news_1 "[news_2]"]
    fetch_failure_policy [of "Some 5" "initial BASE_URL" page_2 flaky_site RequestException
      example_urllib news_1 "[news_2]"]
  show ?thesis by simp
qed


end
